theory Spec2Isabelle
  imports Main "HOL-Library.Word"
begin

unbundle bit_operations_syntax

section \<open>The toolkit: objects, the store, and the calls the dialog makes\<close>

text \<open>
  \<^verbatim>\<open>src/ui/dialog/import_dialog.cpp\<close> defines one class, \<^verbatim>\<open>SchematicImportDialog\<close>, derived
  from \<^verbatim>\<open>wxDialog\<close>: a constructor that builds the widgets, and two empty event handlers.
  Everything the constructor does is a call into wxWidgets, on objects that it allocates
  with \<^verbatim>\<open>new\<close> and reaches through pointers. The model therefore has an explicit store:
  a map from addresses to toolkit objects, threaded through every call.

  Addresses are handed out in increasing order and never reused. Window identifiers,
  positions and initial sizes (\<^verbatim>\<open>wxID_ANY\<close>, \<^verbatim>\<open>wxDefaultPosition\<close>, \<^verbatim>\<open>wxDefaultSize\<close>) are not
  recorded, and \<^verbatim>\<open>new\<close> is taken never to fail.
\<close>

type_synonym addr = nat

datatype wx_class = Dialog | ScrolledWindow | ToolBar | Button | StatusBar | BoxSizer

datatype wxEventType = wxEVT_BUTTON | wxEVT_TOOL | wxEVT_SIZE | wxEVT_CLOSE_WINDOW

datatype wxOrientation = wxHORIZONTAL | wxVERTICAL

text \<open>The two pointers to member functions that the constructor passes to \<^verbatim>\<open>Bind\<close>.\<close>

datatype member_fn = Ptr_OnVectorize | Ptr_OnZoom

text \<open>
  One record for every toolkit object. \<open>owner\<close> is the parent of a window and, for a
  sizer, the window it has been installed on: the object that deletes this one in its
  destructor. The fields after \<open>modal\<close> belong to one class each (scrolled window, tool
  bar, status bar, sizer, frame-like top-level window); the last four are the data
  members that \<^verbatim>\<open>SchematicImportDialog\<close> declares, \<open>None\<close> while not yet assigned.
\<close>

record object =
  cls :: wx_class
  owner :: "addr option"
  label :: string
  style :: "32 word"
  min_size :: "int \<times> int"
  window_sizer :: "addr option"
  dyn_events :: "(wxEventType \<times> member_fn \<times> addr) list"
  shown :: bool
  modal :: bool
  scroll_rate :: "int \<times> int"
  tools :: "addr list"
  realized :: bool
  status_fields :: "string list"
  orient :: wxOrientation
  sizer_items :: "addr list"
  frame_toolbar :: "addr option"
  frame_statusbar :: "addr option"
  m_scrolledWindow :: "addr option"
  m_vectorizeBtn :: "addr option"
  m_zoomBtn :: "addr option"
  m_statusBar :: "addr option"

text \<open>The calls into the toolkit, as they are logged in the order they happen.\<close>

datatype toolkit_call =
    New wx_class addr
  | Call_SetScrollRate addr int int
  | Call_CreateToolBar addr addr
  | Call_AddControl addr addr
  | Call_Realize addr
  | Call_CreateStatusBar addr addr
  | Call_Bind addr wxEventType member_fn addr
  | Call_SetSizer addr addr
  | Call_SetMinSize addr int int
  | Call_Add addr addr
  | Call_SetStatusText addr string nat
  | Call_Show addr bool
  | Call_ShowModal addr
  | Delete addr

record world =
  heap :: "addr \<rightharpoonup> object"
  next_addr :: addr
  trace :: "toolkit_call list"

definition empty_world :: world where
  "empty_world = \<lparr>heap = Map.empty, next_addr = 0, trace = []\<rparr>"

definition log_call :: "toolkit_call \<Rightarrow> world \<Rightarrow> world" where
  "log_call c w = w\<lparr>trace := trace w @ [c]\<rparr>"

definition alloc :: "object \<Rightarrow> world \<Rightarrow> addr \<times> world" where
  "alloc obj w =
     (next_addr w, w\<lparr>heap := (heap w)(next_addr w \<mapsto> obj), next_addr := Suc (next_addr w)\<rparr>)"

text \<open>A call through a pointer to an object that is not there leaves the store as it is.\<close>

definition update_obj :: "addr \<Rightarrow> (object \<Rightarrow> object) \<Rightarrow> world \<Rightarrow> world" where
  "update_obj a f w =
     (case heap w a of None \<Rightarrow> w | Some obj \<Rightarrow> w\<lparr>heap := (heap w)(a \<mapsto> f obj)\<rparr>)"

subsection \<open>Constants of the toolkit's headers\<close>

definition wxCAPTION :: "32 word" where "wxCAPTION = 0x20000000"
definition wxSYSTEM_MENU :: "32 word" where "wxSYSTEM_MENU = 0x0800"
definition wxCLOSE_BOX :: "32 word" where "wxCLOSE_BOX = 0x1000"
definition wxRESIZE_BORDER :: "32 word" where "wxRESIZE_BORDER = 0x0040"

definition wxDEFAULT_DIALOG_STYLE :: "32 word" where
  "wxDEFAULT_DIALOG_STYLE = wxCAPTION OR wxSYSTEM_MENU OR wxCLOSE_BOX"

definition wxDefaultSize :: "int \<times> int" where
  "wxDefaultSize = (-1, -1)"

subsection \<open>Constructors of the toolkit's classes\<close>

text \<open>
  A new object of class \<open>c\<close> with owner \<open>p\<close>. A top-level window is created hidden, a child
  window shown; a dialog is not modal until it is shown with \<^verbatim>\<open>ShowModal\<close>.
\<close>

definition blank :: "wx_class \<Rightarrow> addr option \<Rightarrow> object" where
  "blank c p =
     \<lparr>cls = c, owner = p, label = [], style = 0, min_size = wxDefaultSize,
      window_sizer = None, dyn_events = [],
      shown = (c \<in> {ScrolledWindow, ToolBar, Button, StatusBar}), modal = False,
      scroll_rate = (0, 0), tools = [], realized = False, status_fields = [],
      orient = wxHORIZONTAL, sizer_items = [],
      frame_toolbar = None, frame_statusbar = None,
      m_scrolledWindow = None, m_vectorizeBtn = None, m_zoomBtn = None,
      m_statusBar = None\<rparr>"

definition wxDialog :: "addr option \<Rightarrow> string \<Rightarrow> 32 word \<Rightarrow> world \<Rightarrow> addr \<times> world" where
  "wxDialog parent title st w =
     (let (a, w') = alloc ((blank Dialog parent)\<lparr>label := title, style := st\<rparr>) w
      in (a, log_call (New Dialog a) w'))"

definition wxBoxSizer :: "wxOrientation \<Rightarrow> world \<Rightarrow> addr \<times> world" where
  "wxBoxSizer d w =
     (let (a, w') = alloc ((blank BoxSizer None)\<lparr>orient := d\<rparr>) w
      in (a, log_call (New BoxSizer a) w'))"

definition wxScrolledWindow :: "addr option \<Rightarrow> world \<Rightarrow> addr \<times> world" where
  "wxScrolledWindow parent w =
     (let (a, w') = alloc (blank ScrolledWindow parent) w
      in (a, log_call (New ScrolledWindow a) w'))"

definition wxButton :: "addr option \<Rightarrow> string \<Rightarrow> world \<Rightarrow> addr \<times> world" where
  "wxButton parent lbl w =
     (let (a, w') = alloc ((blank Button parent)\<lparr>label := lbl\<rparr>) w
      in (a, log_call (New Button a) w'))"

subsection \<open>Member functions of the toolkit's classes\<close>

definition SetScrollRate :: "addr \<Rightarrow> int \<Rightarrow> int \<Rightarrow> world \<Rightarrow> world" where
  "SetScrollRate a xstep ystep w =
     log_call (Call_SetScrollRate a xstep ystep)
       (update_obj a (\<lambda>obj. obj\<lparr>scroll_rate := (xstep, ystep)\<rparr>) w)"

text \<open>
  \<^verbatim>\<open>CreateToolBar()\<close> and \<^verbatim>\<open>CreateStatusBar()\<close>, which the toolkit declares for its frame
  windows and the dialog calls on itself, make a bar that is a child of the window they
  are called on, remember it there, and return it. The status bar starts with one field,
  whose text is empty.
\<close>

definition CreateToolBar :: "addr \<Rightarrow> world \<Rightarrow> addr \<times> world" where
  "CreateToolBar this w =
     (let (tb, w') = alloc (blank ToolBar (Some this)) w
      in (tb, log_call (Call_CreateToolBar this tb)
                (update_obj this (\<lambda>obj. obj\<lparr>frame_toolbar := Some tb\<rparr>) w')))"

definition CreateStatusBar :: "addr \<Rightarrow> world \<Rightarrow> addr \<times> world" where
  "CreateStatusBar this w =
     (let (sb, w') = alloc ((blank StatusBar (Some this))\<lparr>status_fields := [[]]\<rparr>) w
      in (sb, log_call (Call_CreateStatusBar this sb)
                (update_obj this (\<lambda>obj. obj\<lparr>frame_statusbar := Some sb\<rparr>) w')))"

definition AddControl :: "addr \<Rightarrow> addr \<Rightarrow> world \<Rightarrow> world" where
  "AddControl tb c w =
     log_call (Call_AddControl tb c) (update_obj tb (\<lambda>obj. obj\<lparr>tools := tools obj @ [c]\<rparr>) w)"

definition Realize :: "addr \<Rightarrow> world \<Rightarrow> world" where
  "Realize tb w = log_call (Call_Realize tb) (update_obj tb (\<lambda>obj. obj\<lparr>realized := True\<rparr>) w)"

text \<open>
  \<^verbatim>\<open>Bind(type, method, sink)\<close> on an event handler puts an entry at the front of its table
  of dynamically bound handlers.
\<close>

definition Bind :: "addr \<Rightarrow> wxEventType \<Rightarrow> member_fn \<Rightarrow> addr \<Rightarrow> world \<Rightarrow> world" where
  "Bind a t m sink w =
     log_call (Call_Bind a t m sink)
       (update_obj a (\<lambda>obj. obj\<lparr>dyn_events := (t, m, sink) # dyn_events obj\<rparr>) w)"

definition SetMinSize :: "addr \<Rightarrow> int \<times> int \<Rightarrow> world \<Rightarrow> world" where
  "SetMinSize a sz w =
     log_call (Call_SetMinSize a (fst sz) (snd sz)) (update_obj a (\<lambda>obj. obj\<lparr>min_size := sz\<rparr>) w)"

subsection \<open>Member functions that the dialog never calls\<close>

text \<open>
  The source calls none of the following. They are the toolkit's only ways to show a
  window, to put a window into a sizer and to write into a status bar, and they are here
  so that the log and the store can tell a dialog that does these things from one that
  does not. \<^verbatim>\<open>ShowModal\<close> shows the dialog and runs an event loop for it.
\<close>

definition Show :: "addr \<Rightarrow> bool \<Rightarrow> world \<Rightarrow> world" where
  "Show a b w = log_call (Call_Show a b) (update_obj a (\<lambda>obj. obj\<lparr>shown := b\<rparr>) w)"

definition ShowModal :: "addr \<Rightarrow> world \<Rightarrow> world" where
  "ShowModal a w =
     log_call (Call_ShowModal a) (update_obj a (\<lambda>obj. obj\<lparr>shown := True, modal := True\<rparr>) w)"

definition Add :: "addr \<Rightarrow> addr \<Rightarrow> world \<Rightarrow> world" where
  "Add sz a w =
     log_call (Call_Add sz a) (update_obj sz (\<lambda>obj. obj\<lparr>sizer_items := sizer_items obj @ [a]\<rparr>) w)"

definition SetStatusText :: "addr \<Rightarrow> string \<Rightarrow> nat \<Rightarrow> world \<Rightarrow> world" where
  "SetStatusText sb txt i w =
     log_call (Call_SetStatusText sb txt i)
       (update_obj sb
          (\<lambda>obj. if i < length (status_fields obj)
                  then obj\<lparr>status_fields := (status_fields obj)[i := txt]\<rparr> else obj) w)"

subsection \<open>Destruction\<close>

text \<open>
  The destructor of a window deletes its children, and with them theirs; it also deletes
  the sizer installed on it. An owner is always constructed before what it owns, so a walk
  up the \<open>owner\<close> links goes to strictly smaller addresses; a link that does not is the end
  of the walk. \<open>owned_by h d a\<close>: deleting \<open>d\<close> deletes \<open>a\<close>.
\<close>

function owned_by :: "(addr \<rightharpoonup> object) \<Rightarrow> addr \<Rightarrow> addr \<Rightarrow> bool" where
  "owned_by h d a =
     (if a = d then True
      else case h a of
             None \<Rightarrow> False
           | Some obj \<Rightarrow>
               (case owner obj of
                  None \<Rightarrow> False
                | Some p \<Rightarrow> if p < a then owned_by h d p else False))"
  by pat_completeness auto
termination
  by (relation "measure (\<lambda>(h, d, a). a)") auto

declare owned_by.simps [simp del]

definition delete_object :: "addr \<Rightarrow> world \<Rightarrow> world" where
  "delete_object d w =
     log_call (Delete d)
       (w\<lparr>heap := (\<lambda>a. if owned_by (heap w) d a then None else heap w a)\<rparr>)"

text \<open>
  \<^verbatim>\<open>SetSizer(sizer)\<close> installs the sizer on the window, which owns it from then on; a
  different sizer installed before is deleted.
\<close>

definition SetSizer :: "addr \<Rightarrow> addr \<Rightarrow> world \<Rightarrow> world" where
  "SetSizer this sz w =
     (let old = (case heap w this of None \<Rightarrow> None | Some obj \<Rightarrow> window_sizer obj);
          w1 = (case old of
                  None \<Rightarrow> w
                | Some prev \<Rightarrow> if prev = sz then w else delete_object prev w);
          w2 = update_obj this (\<lambda>obj. obj\<lparr>window_sizer := Some sz\<rparr>) w1;
          w3 = update_obj sz (\<lambda>obj. obj\<lparr>owner := Some this\<rparr>) w2
      in log_call (Call_SetSizer this sz) w3)"

section \<open>The dialog\<close>

text \<open>
  The constructor, statement by statement. The base-class constructor runs first and
  gives the address of the dialog itself.
\<close>

definition SchematicImportDialog :: "addr option \<Rightarrow> world \<Rightarrow> addr \<times> world" where
  "SchematicImportDialog parent w0 =
     (let (this, w1) = wxDialog parent ''Import Schematic''
                          (wxDEFAULT_DIALOG_STYLE OR wxRESIZE_BORDER) w0;
          (mainSizer, w2) = wxBoxSizer wxVERTICAL w1;
          (sw, w3) = wxScrolledWindow (Some this) w2;
          w4 = update_obj this (\<lambda>obj. obj\<lparr>m_scrolledWindow := Some sw\<rparr>) w3;
          w5 = SetScrollRate sw 5 5 w4;
          (toolbar, w6) = CreateToolBar this w5;
          (vb, w7) = wxButton (Some toolbar) ''Vectorize'' w6;
          w8 = update_obj this (\<lambda>obj. obj\<lparr>m_vectorizeBtn := Some vb\<rparr>) w7;
          (zb, w9) = wxButton (Some toolbar) ''Zoom'' w8;
          w10 = update_obj this (\<lambda>obj. obj\<lparr>m_zoomBtn := Some zb\<rparr>) w9;
          w11 = AddControl toolbar vb w10;
          w12 = AddControl toolbar zb w11;
          w13 = Realize toolbar w12;
          (sb, w14) = CreateStatusBar this w13;
          w15 = update_obj this (\<lambda>obj. obj\<lparr>m_statusBar := Some sb\<rparr>) w14;
          w16 = Bind vb wxEVT_BUTTON Ptr_OnVectorize this w15;
          w17 = Bind zb wxEVT_BUTTON Ptr_OnZoom this w16;
          w18 = SetSizer this mainSizer w17;
          w19 = SetMinSize this (800, 600) w18
      in (this, w19))"

text \<open>
  The two event handlers. Their bodies are empty: each returns normally, and neither the
  event (taken by reference) nor anything in the store is touched. A handler's result is
  \<open>Inr\<close> of the event and the store it leaves, or \<open>Inl\<close> of an exception thrown.
\<close>

record wxCommandEvent =
  event_type :: wxEventType
  event_object :: addr
  skipped :: bool

datatype cpp_exception = Exception string

definition OnVectorize ::
  "addr \<Rightarrow> wxCommandEvent \<Rightarrow> world \<Rightarrow> cpp_exception + (wxCommandEvent \<times> world)" where
  "OnVectorize this event w = Inr (event, w)"

definition OnZoom ::
  "addr \<Rightarrow> wxCommandEvent \<Rightarrow> world \<Rightarrow> cpp_exception + (wxCommandEvent \<times> world)" where
  "OnZoom this event w = Inr (event, w)"

section \<open>Event dispatch\<close>

fun call_member ::
  "member_fn \<Rightarrow> addr \<Rightarrow> wxCommandEvent \<Rightarrow> world \<Rightarrow> cpp_exception + (wxCommandEvent \<times> world)"
  where
  "call_member Ptr_OnVectorize = OnVectorize"
| "call_member Ptr_OnZoom = OnZoom"

text \<open>
  The toolkit looks through the table of dynamically bound handlers of the object the
  event is sent to, front to back. An entry for the event's type is called on its sink;
  unless the handler has called \<^verbatim>\<open>Skip()\<close> on the event, the event is then handled and
  the search stops. The result lists the handlers called, in order, and says whether the
  event was handled. An exception leaves the search at once.
\<close>

fun SearchDynamicEventTable ::
  "(wxEventType \<times> member_fn \<times> addr) list \<Rightarrow> wxCommandEvent \<Rightarrow> world \<Rightarrow>
     cpp_exception + (member_fn list \<times> bool \<times> world)" where
  "SearchDynamicEventTable [] ev w = Inr ([], False, w)"
| "SearchDynamicEventTable ((t, m, sink) # rest) ev w =
     (if t \<noteq> event_type ev then SearchDynamicEventTable rest ev w
      else case call_member m sink (ev\<lparr>skipped := False\<rparr>) w of
             Inl e \<Rightarrow> Inl e
           | Inr (ev', w') \<Rightarrow>
               if skipped ev' then
                 (case SearchDynamicEventTable rest ev' w' of
                    Inl e \<Rightarrow> Inl e
                  | Inr (ms, handled, w'') \<Rightarrow> Inr (m # ms, handled, w''))
               else Inr ([m], True, w'))"

text \<open>A click on the button at \<open>b\<close>: a \<^verbatim>\<open>wxEVT_BUTTON\<close> command event sent to the button.\<close>

definition SendClickEvent ::
  "addr \<Rightarrow> world \<Rightarrow> cpp_exception + (member_fn list \<times> bool \<times> world)" where
  "SendClickEvent b w =
     (case heap w b of
        None \<Rightarrow> Inr ([], False, w)
      | Some obj \<Rightarrow>
          SearchDynamicEventTable (dyn_events obj)
            \<lparr>event_type = wxEVT_BUTTON, event_object = b, skipped = False\<rparr> w)"

text \<open>The user's clicks on the two buttons of the dialog at \<open>this\<close>.\<close>

datatype dialog_button = VectorizeButton | ZoomButton

fun button_ptr :: "dialog_button \<Rightarrow> object \<Rightarrow> addr option" where
  "button_ptr VectorizeButton = m_vectorizeBtn"
| "button_ptr ZoomButton = m_zoomBtn"

definition click ::
  "dialog_button \<Rightarrow> addr \<Rightarrow> world \<Rightarrow> cpp_exception + (member_fn list \<times> bool \<times> world)" where
  "click b this w =
     (case heap w this of
        None \<Rightarrow> Inr ([], False, w)
      | Some d \<Rightarrow>
          (case button_ptr b d of
             None \<Rightarrow> Inr ([], False, w)
           | Some a \<Rightarrow> SendClickEvent a w))"

fun clicks ::
  "dialog_button list \<Rightarrow> addr \<Rightarrow> world \<Rightarrow> cpp_exception + (member_fn list \<times> world)" where
  "clicks [] this w = Inr ([], w)"
| "clicks (b # bs) this w =
     (case click b this w of
        Inl e \<Rightarrow> Inl e
      | Inr (ms, handled, w') \<Rightarrow>
          (case clicks bs this w' of
             Inl e \<Rightarrow> Inl e
           | Inr (ms', w'') \<Rightarrow> Inr (ms @ ms', w'')))"

text \<open>The member function that the constructor binds to the clicks of each button.\<close>

fun bound_handler :: "dialog_button \<Rightarrow> member_fn" where
  "bound_handler VectorizeButton = Ptr_OnVectorize"
| "bound_handler ZoomButton = Ptr_OnZoom"

text \<open>Any sequence of calls of the two handlers on the dialog at \<open>this\<close>.\<close>

fun run_handlers ::
  "(member_fn \<times> wxCommandEvent) list \<Rightarrow> addr \<Rightarrow> world \<Rightarrow> cpp_exception + world" where
  "run_handlers [] this w = Inr w"
| "run_handlers ((m, ev) # rest) this w =
     (case call_member m this ev w of
        Inl e \<Rightarrow> Inl e
      | Inr (ev', w') \<Rightarrow> run_handlers rest this w')"

section \<open>What a caller can observe of the dialog\<close>

definition GetTitle :: "addr \<Rightarrow> world \<Rightarrow> string option" where
  "GetTitle a w = map_option label (heap w a)"

definition HasFlag :: "addr \<Rightarrow> 32 word \<Rightarrow> world \<Rightarrow> bool" where
  "HasFlag a flag w = (case heap w a of None \<Rightarrow> False | Some obj \<Rightarrow> style obj AND flag \<noteq> 0)"

definition IsModal :: "addr \<Rightarrow> world \<Rightarrow> bool option" where
  "IsModal a w = map_option modal (heap w a)"

definition IsShown :: "addr \<Rightarrow> world \<Rightarrow> bool option" where
  "IsShown a w = map_option shown (heap w a)"

definition GetMinSize :: "addr \<Rightarrow> world \<Rightarrow> (int \<times> int) option" where
  "GetMinSize a w = map_option min_size (heap w a)"

text \<open>The table of dynamically bound handlers of one of the dialog's buttons.\<close>

definition button_bindings ::
  "dialog_button \<Rightarrow> addr \<Rightarrow> world \<Rightarrow> (wxEventType \<times> member_fn \<times> addr) list option" where
  "button_bindings b this w =
     (case heap w this of
        None \<Rightarrow> None
      | Some d \<Rightarrow>
          (case button_ptr b d of
             None \<Rightarrow> None
           | Some a \<Rightarrow> map_option dyn_events (heap w a)))"

definition GetSizer :: "addr \<Rightarrow> world \<Rightarrow> addr option" where
  "GetSizer this w = (case heap w this of None \<Rightarrow> None | Some d \<Rightarrow> window_sizer d)"

text \<open>
  The widgets that the dialog keeps in its data members: the scrolled window, the two
  buttons and the status bar.
\<close>

definition owned_widgets :: "addr \<Rightarrow> world \<Rightarrow> addr list" where
  "owned_widgets this w =
     (case heap w this of
        None \<Rightarrow> []
      | Some d \<Rightarrow>
          List.map_filter id [m_scrolledWindow d, m_vectorizeBtn d, m_zoomBtn d, m_statusBar d])"

text \<open>The controls of the dialog's tool bar, in order: the class and the label of each.\<close>

definition toolbar_controls :: "addr \<Rightarrow> world \<Rightarrow> (wx_class \<times> string) option list option" where
  "toolbar_controls this w =
     (case heap w this of
        None \<Rightarrow> None
      | Some d \<Rightarrow>
          (case frame_toolbar d of
             None \<Rightarrow> None
           | Some tb \<Rightarrow>
               (case heap w tb of
                  None \<Rightarrow> None
                | Some t \<Rightarrow>
                    Some (map (\<lambda>c. map_option (\<lambda>b. (cls b, label b)) (heap w c)) (tools t)))))"

text \<open>The scroll increments of the dialog's scrolled window \<open>m_scrolledWindow\<close>.\<close>

definition viewport_scroll_rate :: "addr \<Rightarrow> world \<Rightarrow> (int \<times> int) option" where
  "viewport_scroll_rate this w =
     (case heap w this of
        None \<Rightarrow> None
      | Some d \<Rightarrow>
          (case m_scrolledWindow d of
             None \<Rightarrow> None
           | Some sw \<Rightarrow> map_option scroll_rate (heap w sw)))"

text \<open>The items of the sizer installed on the window at \<open>this\<close>.\<close>

definition installed_sizer_items :: "addr \<Rightarrow> world \<Rightarrow> addr list option" where
  "installed_sizer_items this w =
     (case heap w this of
        None \<Rightarrow> None
      | Some d \<Rightarrow>
          (case window_sizer d of
             None \<Rightarrow> None
           | Some sz \<Rightarrow> map_option sizer_items (heap w sz)))"

text \<open>
  The text of field \<open>i\<close> of a status bar, and the text that the dialog's status bar
  \<open>m_statusBar\<close> shows in its first field.
\<close>

definition GetStatusText :: "addr \<Rightarrow> nat \<Rightarrow> world \<Rightarrow> string option" where
  "GetStatusText sb i w =
     (case heap w sb of
        None \<Rightarrow> None
      | Some s \<Rightarrow> if i < length (status_fields s) then Some (status_fields s ! i) else None)"

definition status_text :: "addr \<Rightarrow> world \<Rightarrow> string option" where
  "status_text this w =
     (case heap w this of
        None \<Rightarrow> None
      | Some d \<Rightarrow>
          (case m_statusBar d of
             None \<Rightarrow> None
           | Some sb \<Rightarrow> GetStatusText sb 0 w))"

text \<open>
  The calls logged between two stores, and three kinds of call: those that show a window
  or run an event loop for it, those that put something into a sizer, and those that
  write into a status bar.
\<close>

definition calls_since :: "world \<Rightarrow> world \<Rightarrow> toolkit_call list" where
  "calls_since w0 w = drop (length (trace w0)) (trace w)"

fun shows_window :: "toolkit_call \<Rightarrow> bool" where
  "shows_window (Call_Show a b) = b"
| "shows_window (Call_ShowModal a) = True"
| "shows_window c = False"

fun adds_to_sizer :: "toolkit_call \<Rightarrow> bool" where
  "adds_to_sizer (Call_Add sz a) = True"
| "adds_to_sizer c = False"

fun writes_status :: "toolkit_call \<Rightarrow> bool" where
  "writes_status (Call_SetStatusText sb txt i) = True"
| "writes_status c = False"

section \<open>Sequences of constructions and destructions\<close>

datatype lifecycle_op = Construct "addr option" | Destroy addr

fun run_lifecycle :: "lifecycle_op list \<Rightarrow> world \<Rightarrow> world" where
  "run_lifecycle [] w = w"
| "run_lifecycle (Construct parent # ops) w =
     run_lifecycle ops (snd (SchematicImportDialog parent w))"
| "run_lifecycle (Destroy d # ops) w = run_lifecycle ops (delete_object d w)"

text \<open>\<open>k\<close> times: construct a dialog, then destroy it.\<close>

fun cycles :: "nat \<Rightarrow> addr option \<Rightarrow> world \<Rightarrow> world" where
  "cycles 0 parent w = w"
| "cycles (Suc k) parent w =
     (case SchematicImportDialog parent w of
        (this, w') \<Rightarrow> cycles k parent (delete_object this w'))"

text \<open>
  Invariants of the store, for the proofs: nothing lives at an address not yet handed
  out, and every live object that is not a dialog has a live owner, constructed before it.
\<close>

definition fresh :: "world \<Rightarrow> bool" where
  "fresh w = (\<forall>a. next_addr w \<le> a \<longrightarrow> heap w a = None)"

definition owner_alive :: "(addr \<rightharpoonup> object) \<Rightarrow> addr \<Rightarrow> bool" where
  "owner_alive h a =
     (case h a of
        None \<Rightarrow> True
      | Some obj \<Rightarrow>
          cls obj = Dialog \<or>
          (case owner obj of None \<Rightarrow> False | Some p \<Rightarrow> p < a \<and> h p \<noteq> None))"

definition well_owned :: "world \<Rightarrow> bool" where
  "well_owned w = (fresh w \<and> (\<forall>a. owner_alive (heap w) a))"

section \<open>Evaluating the constructor\<close>

text \<open>
  The toolkit's calls on a store written out as a record. With these as rewrite rules the
  constructor is evaluated statement by statement, each on the result of the one before.
\<close>

lemma alloc_explicit:
  "alloc obj \<lparr>heap = h, next_addr = n, trace = t\<rparr> =
     (n, \<lparr>heap = h(n \<mapsto> obj), next_addr = Suc n, trace = t\<rparr>)"
  by (simp add: alloc_def)

lemma update_obj_explicit:
  "update_obj a f \<lparr>heap = h, next_addr = n, trace = t\<rparr> =
     (case h a of None \<Rightarrow> \<lparr>heap = h, next_addr = n, trace = t\<rparr>
      | Some obj \<Rightarrow> \<lparr>heap = h(a \<mapsto> f obj), next_addr = n, trace = t\<rparr>)"
  by (simp add: update_obj_def split: option.split)

lemma log_call_explicit:
  "log_call c \<lparr>heap = h, next_addr = n, trace = t\<rparr> = \<lparr>heap = h, next_addr = n, trace = t @ [c]\<rparr>"
  by (simp add: log_call_def)

lemmas toolkit_defs = wxDialog_def wxBoxSizer_def wxScrolledWindow_def wxButton_def
  CreateToolBar_def CreateStatusBar_def SetScrollRate_def AddControl_def Realize_def Bind_def SetSizer_def
  SetMinSize_def

text \<open>
  The store that the constructor leaves: seven new objects at consecutive addresses (the
  dialog, the sizer, the scrolled window, the tool bar, the two buttons, the status bar),
  nothing else changed, and fifteen calls logged.
\<close>

lemma ctor_explicit:
  "SchematicImportDialog parent \<lparr>heap = h, next_addr = n, trace = t\<rparr> =
     (n,
      \<lparr>heap = h
         (n \<mapsto> (blank Dialog parent)
                 \<lparr>label := ''Import Schematic'',
                  style := wxDEFAULT_DIALOG_STYLE OR wxRESIZE_BORDER,
                  min_size := (800, 600), window_sizer := Some (n + 1),
                  frame_toolbar := Some (n + 3), frame_statusbar := Some (n + 6),
                  m_scrolledWindow := Some (n + 2), m_vectorizeBtn := Some (n + 4),
                  m_zoomBtn := Some (n + 5), m_statusBar := Some (n + 6)\<rparr>,
          n + 1 \<mapsto> (blank BoxSizer (Some n))\<lparr>orient := wxVERTICAL\<rparr>,
          n + 2 \<mapsto> (blank ScrolledWindow (Some n))\<lparr>scroll_rate := (5, 5)\<rparr>,
          n + 3 \<mapsto> (blank ToolBar (Some n))\<lparr>tools := [n + 4, n + 5], realized := True\<rparr>,
          n + 4 \<mapsto> (blank Button (Some (n + 3)))
                     \<lparr>label := ''Vectorize'',
                      dyn_events := [(wxEVT_BUTTON, Ptr_OnVectorize, n)]\<rparr>,
          n + 5 \<mapsto> (blank Button (Some (n + 3)))
                     \<lparr>label := ''Zoom'', dyn_events := [(wxEVT_BUTTON, Ptr_OnZoom, n)]\<rparr>,
          n + 6 \<mapsto> (blank StatusBar (Some n))\<lparr>status_fields := [[]]\<rparr>),
       next_addr = n + 7,
       trace = t @
         [New Dialog n, New BoxSizer (n + 1), New ScrolledWindow (n + 2),
          Call_SetScrollRate (n + 2) 5 5, Call_CreateToolBar n (n + 3),
          New Button (n + 4), New Button (n + 5),
          Call_AddControl (n + 3) (n + 4), Call_AddControl (n + 3) (n + 5),
          Call_Realize (n + 3), Call_CreateStatusBar n (n + 6),
          Call_Bind (n + 4) wxEVT_BUTTON Ptr_OnVectorize n,
          Call_Bind (n + 5) wxEVT_BUTTON Ptr_OnZoom n,
          Call_SetSizer n (n + 1), Call_SetMinSize n 800 600]\<rparr>)"
  unfolding SchematicImportDialog_def
  apply (simp add: toolkit_defs alloc_explicit update_obj_explicit log_call_explicit Let_def blank_def)
  apply (rule ext)
  apply (simp add: eval_nat_numeral)
  done

lemmas style_defs = wxDEFAULT_DIALOG_STYLE_def wxCAPTION_def wxSYSTEM_MENU_def wxCLOSE_BOX_def
  wxRESIZE_BORDER_def

subsection \<open>Clicks and handler calls on a constructed dialog\<close>

lemma click_constructed:
  "SchematicImportDialog parent w0 = (this, w) \<Longrightarrow> click b this w = Inr ([bound_handler b], True, w)"
  by (cases w0; cases b)
     (auto simp add: ctor_explicit click_def SendClickEvent_def OnVectorize_def OnZoom_def blank_def)

lemma clicks_constructed:
  "SchematicImportDialog parent w0 = (this, w) \<Longrightarrow> clicks bs this w = Inr (map bound_handler bs, w)"
  by (induction bs) (simp_all add: click_constructed)

lemma count_vectorize: "count_list (map bound_handler bs) Ptr_OnVectorize = count_list bs VectorizeButton"
proof (induction bs)
  case Nil
  show ?case by simp
next
  case (Cons b bs)
  then show ?case by (cases b) simp_all
qed

lemma count_zoom: "count_list (map bound_handler bs) Ptr_OnZoom = count_list bs ZoomButton"
proof (induction bs)
  case Nil
  show ?case by simp
next
  case (Cons b bs)
  then show ?case by (cases b) simp_all
qed

lemma run_handlers_id: "run_handlers hs this w = Inr w"
proof (induction hs)
  case Nil
  show ?case by simp
next
  case (Cons h hs)
  obtain m ev where h: "h = (m, ev)" by (cases h)
  show ?case using Cons h by (cases m) (simp_all add: OnVectorize_def OnZoom_def)
qed

section \<open>Ownership and lifetimes\<close>

lemma owned_by_ge: "owned_by h d a \<Longrightarrow> d \<le> a"
proof (induction h d a rule: owned_by.induct)
  case (1 h d a)
  show ?case
  proof (cases "a = d")
    case True
    then show ?thesis by simp
  next
    case False
    with "1.prems" obtain obj p where
      "h a = Some obj" "owner obj = Some p" "p < a" "owned_by h d p"
      by (subst (asm) owned_by.simps) (auto split: option.splits if_splits)
    with "1.IH" False have "d \<le> p" by simp
    with \<open>p < a\<close> show ?thesis by simp
  qed
qed

lemma owned_by_self: "owned_by h d d"
  by (subst owned_by.simps) simp

lemma owned_by_step:
  "h a = Some obj \<Longrightarrow> owner obj = Some p \<Longrightarrow> p < a \<Longrightarrow> owned_by h d p \<Longrightarrow> owned_by h d a"
  by (subst owned_by.simps) simp

lemma well_owned_empty: "well_owned empty_world"
  by (simp add: well_owned_def fresh_def owner_alive_def empty_world_def)

lemma well_owned_delete:
  assumes "well_owned w"
  shows "well_owned (delete_object d w)"
proof -
  let ?h = "heap w"
  let ?h' = "heap (delete_object d w)"
  have h': "?h' = (\<lambda>a. if owned_by ?h d a then None else ?h a)"
    by (simp add: delete_object_def log_call_def)
  have n': "next_addr (delete_object d w) = next_addr w"
    by (simp add: delete_object_def log_call_def)
  have "fresh (delete_object d w)"
    using assms by (simp add: well_owned_def fresh_def h' n')
  moreover have "owner_alive ?h' a" for a
  proof (cases "?h' a")
    case None
    then show ?thesis by (simp add: owner_alive_def)
  next
    case (Some obj)
    then have live: "?h a = Some obj" and keep: "\<not> owned_by ?h d a"
      by (auto simp add: h' split: if_splits)
    from assms have "owner_alive ?h a" by (simp add: well_owned_def)
    with live have "cls obj = Dialog \<or> (\<exists>p. owner obj = Some p \<and> p < a \<and> ?h p \<noteq> None)"
      by (auto simp add: owner_alive_def split: option.splits)
    then show ?thesis
    proof
      assume "cls obj = Dialog"
      with Some show ?thesis by (simp add: owner_alive_def)
    next
      assume "\<exists>p. owner obj = Some p \<and> p < a \<and> ?h p \<noteq> None"
      then obtain p where p: "owner obj = Some p" "p < a" "?h p \<noteq> None" by blast
      have "\<not> owned_by ?h d p"
        using keep live p owned_by_step [of "heap w" a obj p d] by blast
      with p have "?h' p \<noteq> None" by (simp add: h')
      with Some p show ?thesis by (simp add: owner_alive_def)
    qed
  qed
  ultimately show ?thesis by (simp add: well_owned_def)
qed

lemma ctor_next: "next_addr (snd (SchematicImportDialog parent w)) = next_addr w + 7"
  by (cases w) (simp add: ctor_explicit)

lemma ctor_old: "a < next_addr w \<Longrightarrow> heap (snd (SchematicImportDialog parent w)) a = heap w a"
  by (cases w) (simp add: ctor_explicit)

lemma ctor_beyond:
  "next_addr w + 7 \<le> a \<Longrightarrow> heap (snd (SchematicImportDialog parent w)) a = heap w a"
  by (cases w) (simp add: ctor_explicit)

lemma ctor_new:
  assumes "next_addr w \<le> a" "a < next_addr w + 7"
  shows "\<exists>obj. heap (snd (SchematicImportDialog parent w)) a = Some obj \<and>
           (cls obj = Dialog \<or>
            (\<exists>p. owner obj = Some p \<and> p < a \<and> next_addr w \<le> p))"
proof -
  from assms have "a \<in> {next_addr w, next_addr w + 1, next_addr w + 2, next_addr w + 3,
      next_addr w + 4, next_addr w + 5, next_addr w + 6}"
    by auto
  then show ?thesis
    by (cases w) (auto simp add: ctor_explicit blank_def)
qed

lemma well_owned_ctor:
  assumes "well_owned w"
  shows "well_owned (snd (SchematicImportDialog parent w))"
proof -
  let ?w' = "snd (SchematicImportDialog parent w)"
  let ?n = "next_addr w"
  from assms have fr: "\<And>a. ?n \<le> a \<Longrightarrow> heap w a = None"
    and ow: "\<And>a. owner_alive (heap w) a"
    by (simp_all add: well_owned_def fresh_def)
  have "fresh ?w'"
    by (simp add: fresh_def ctor_next ctor_beyond fr)
  moreover have "owner_alive (heap ?w') a" for a
  proof -
    consider "a < ?n" | "?n \<le> a" "a < ?n + 7" | "?n + 7 \<le> a" by linarith
    then show ?thesis
    proof cases
      case 1
      show ?thesis
      proof (cases "heap w a")
        case None
        with 1 show ?thesis by (simp add: owner_alive_def ctor_old)
      next
        case (Some obj)
        with ow [of a] have "cls obj = Dialog \<or>
            (\<exists>p. owner obj = Some p \<and> p < a \<and> heap w p \<noteq> None)"
          by (auto simp add: owner_alive_def split: option.splits)
        with 1 Some show ?thesis
          by (auto simp add: owner_alive_def ctor_old)
      qed
    next
      case 2
      from ctor_new [OF 2, of parent] obtain obj where
        obj: "heap ?w' a = Some obj"
          "cls obj = Dialog \<or> (\<exists>p. owner obj = Some p \<and> p < a \<and> ?n \<le> p)"
        by blast
      from obj(2) show ?thesis
      proof
        assume "cls obj = Dialog"
        with obj(1) show ?thesis by (simp add: owner_alive_def)
      next
        assume "\<exists>p. owner obj = Some p \<and> p < a \<and> ?n \<le> p"
        then obtain p where p: "owner obj = Some p" "p < a" "?n \<le> p" by blast
        with 2 have "p < ?n + 7" by simp
        from ctor_new [OF p(3) this, of parent] have "heap ?w' p \<noteq> None" by auto
        with obj(1) p show ?thesis by (simp add: owner_alive_def)
      qed
    next
      case 3
      then show ?thesis by (simp add: owner_alive_def ctor_beyond fr)
    qed
  qed
  ultimately show ?thesis by (simp add: well_owned_def)
qed

lemma well_owned_lifecycle: "well_owned w \<Longrightarrow> well_owned (run_lifecycle ops w)"
  by (induction ops w rule: run_lifecycle.induct)
     (simp_all add: well_owned_ctor well_owned_delete)

lemma delete_next: "next_addr (delete_object d w) = next_addr w"
  by (simp add: delete_object_def log_call_def)

lemma delete_heap: "heap (delete_object d w) a = (if owned_by (heap w) d a then None else heap w a)"
  by (simp add: delete_object_def log_call_def)

lemma lifecycle_stable:
  "a < next_addr w \<Longrightarrow>
     heap (run_lifecycle ops w) a = None \<or> heap (run_lifecycle ops w) a = heap w a"
proof (induction ops w rule: run_lifecycle.induct)
  case (1 w)
  show ?case by simp
next
  case (2 parent ops w)
  from "2.prems" have "a < next_addr (snd (SchematicImportDialog parent w))"
    by (simp add: ctor_next)
  from "2.IH" [OF this] "2.prems" show ?case by (simp add: ctor_old)
next
  case (3 d ops w)
  from "3.prems" have "a < next_addr (delete_object d w)" by (simp add: delete_next)
  from "3.IH" [OF this] show ?case by (auto simp add: delete_heap split: if_splits)
qed

lemma ctor_widgets:
  assumes "SchematicImportDialog parent w0 = (this, w)"
  shows "owned_widgets this w = [this + 2, this + 4, this + 5, this + 6]"
    and "this = next_addr w0"
    and "next_addr w = this + 7"
    and "\<exists>obj. heap w (this + 2) = Some obj \<and> cls obj \<noteq> Dialog \<and> owner obj = Some this"
    and "\<exists>obj. heap w (this + 3) = Some obj \<and> cls obj \<noteq> Dialog \<and> owner obj = Some this"
    and "\<exists>obj. heap w (this + 4) = Some obj \<and> cls obj \<noteq> Dialog \<and> owner obj = Some (this + 3)"
    and "\<exists>obj. heap w (this + 5) = Some obj \<and> cls obj \<noteq> Dialog \<and> owner obj = Some (this + 3)"
    and "\<exists>obj. heap w (this + 6) = Some obj \<and> cls obj \<noteq> Dialog \<and> owner obj = Some this"
    and "\<exists>obj. heap w (this + 1) = Some obj \<and> cls obj \<noteq> Dialog \<and> owner obj = Some this"
  using assms
  by (cases w0; auto simp add: ctor_explicit owned_widgets_def blank_def )+

lemma live_owner:
  assumes "well_owned w" "heap w a = Some obj" "cls obj \<noteq> Dialog" "owner obj = Some p"
  shows "heap w p \<noteq> None"
proof -
  from assms(1) have "owner_alive (heap w) a" by (simp add: well_owned_def)
  with assms(2-4) show ?thesis by (simp add: owner_alive_def)
qed

lemma child_needs_owner:
  assumes wo: "well_owned w'"
    and st: "heap w' a = None \<or> heap w' a = heap w a"
    and obj: "\<exists>obj. heap w a = Some obj \<and> cls obj \<noteq> Dialog \<and> owner obj = Some p"
    and live: "heap w' a \<noteq> None"
  shows "heap w' p \<noteq> None"
proof -
  from obj obtain obj where o: "heap w a = Some obj" "cls obj \<noteq> Dialog" "owner obj = Some p"
    by blast
  from st live o(1) have "heap w' a = Some obj" by auto
  from live_owner [OF wo this o(2) o(3)] show ?thesis .
qed

lemma widget_needs_dialog:
  assumes wo: "well_owned w0"
    and ctor: "SchematicImportDialog parent w0 = (this, w)"
    and m: "m \<in> set (owned_widgets this w)"
    and live: "heap (run_lifecycle ops w) m \<noteq> None"
  shows "heap (run_lifecycle ops w) this \<noteq> None"
proof -
  let ?w' = "run_lifecycle ops w"
  note cw = ctor_widgets [OF ctor]
  from wo ctor have "well_owned w"
    using well_owned_ctor [of w0 parent] by simp
  then have wo': "well_owned ?w'" by (rule well_owned_lifecycle)
  have st: "heap ?w' a = None \<or> heap ?w' a = heap w a" if "a < this + 7" for a
    using that lifecycle_stable [of a w ops] cw(3) by simp
  have tb: "heap ?w' (this + 3) \<noteq> None \<Longrightarrow> heap ?w' this \<noteq> None"
    using child_needs_owner [OF wo' st cw(5)] by simp
  from m cw(1) consider "m = this + 2" | "m = this + 4" | "m = this + 5" | "m = this + 6"
    by auto
  then show ?thesis
  proof cases
    case 1
    with live show ?thesis using child_needs_owner [OF wo' st cw(4)] by simp
  next
    case 2
    with live have "heap ?w' (this + 3) \<noteq> None"
      using child_needs_owner [OF wo' st cw(6)] by simp
    then show ?thesis by (rule tb)
  next
    case 3
    with live have "heap ?w' (this + 3) \<noteq> None"
      using child_needs_owner [OF wo' st cw(7)] by simp
    then show ?thesis by (rule tb)
  next
    case 4
    with live show ?thesis using child_needs_owner [OF wo' st cw(8)] by simp
  qed
qed

lemma ctor_owned:
  assumes ctor: "SchematicImportDialog parent w0 = (this, w)"
    and a: "this \<le> a" "a < this + 7"
  shows "owned_by (heap w) this a"
proof -
  note cw = ctor_widgets [OF ctor]
  have direct: "owned_by (heap w) this c"
    if "\<exists>obj. heap w c = Some obj \<and> cls obj \<noteq> Dialog \<and> owner obj = Some this" "this < c" for c
    using that owned_by_step [of "heap w" c _ this this] owned_by_self by blast
  have tb: "owned_by (heap w) this (this + 3)"
    using direct [OF cw(5)] by simp
  have via_tb: "owned_by (heap w) this c"
    if "\<exists>obj. heap w c = Some obj \<and> cls obj \<noteq> Dialog \<and> owner obj = Some (this + 3)"
      "this + 3 < c" for c
    using that owned_by_step [of "heap w" c _ "this + 3" this] tb by blast
  from a consider "a = this" | "a = this + 1" | "a = this + 2" | "a = this + 3"
    | "a = this + 4" | "a = this + 5" | "a = this + 6"
    by linarith
  then show ?thesis
  proof cases
    case 1
    then show ?thesis by (simp add: owned_by_self)
  next
    case 2
    then show ?thesis using direct [OF cw(9)] by simp
  next
    case 3
    then show ?thesis using direct [OF cw(4)] by simp
  next
    case 4
    then show ?thesis using tb by simp
  next
    case 5
    then show ?thesis using via_tb [OF cw(6)] by simp
  next
    case 6
    then show ?thesis using via_tb [OF cw(7)] by simp
  next
    case 7
    then show ?thesis using direct [OF cw(8)] by simp
  qed
qed

lemma delete_after_ctor:
  assumes fr: "fresh w0"
    and ctor: "SchematicImportDialog parent w0 = (this, w)"
  shows "heap (delete_object this w) = heap w0"
proof (rule ext)
  fix a
  note cw = ctor_widgets [OF ctor]
  from ctor have w: "w = snd (SchematicImportDialog parent w0)" by simp
  consider "a < this" | "this \<le> a" "a < this + 7" | "this + 7 \<le> a" by linarith
  then show "heap (delete_object this w) a = heap w0 a"
  proof cases
    case 1
    then have "\<not> owned_by (heap w) this a" using owned_by_ge [of "heap w" this a] by auto
    with 1 cw(2) show ?thesis by (simp add: delete_heap w ctor_old)
  next
    case 2
    from ctor_owned [OF ctor 2] fr 2 cw(2) show ?thesis
      by (simp add: delete_heap fresh_def)
  next
    case 3
    with fr cw(2) have "heap w0 a = None" by (simp add: fresh_def)
    with 3 cw(2) show ?thesis by (simp add: delete_heap w ctor_beyond)
  qed
qed

lemma fresh_after_cycle:
  assumes fr: "fresh w0"
    and ctor: "SchematicImportDialog parent w0 = (this, w)"
  shows "fresh (delete_object this w)"
proof -
  note cw = ctor_widgets [OF ctor]
  have eq: "heap (delete_object this w) = heap w0"
    by (rule delete_after_ctor [OF fr ctor])
  have "heap (delete_object this w) a = None" if "next_addr w \<le> a" for a
  proof -
    from that cw(2) cw(3) have "next_addr w0 \<le> a" by simp
    with fr have "heap w0 a = None" by (simp add: fresh_def)
    then show ?thesis by (simp only: eq)
  qed
  then show ?thesis by (simp add: fresh_def delete_next)
qed

lemma cycles_heap: "fresh w \<Longrightarrow> heap (cycles k parent w) = heap w"
proof (induction k arbitrary: w)
  case 0
  show ?case by simp
next
  case (Suc k)
  obtain this w' where ctor: "SchematicImportDialog parent w = (this, w')"
    by (cases "SchematicImportDialog parent w")
  from Suc.IH [OF fresh_after_cycle [OF Suc.prems ctor]] ctor
    delete_after_ctor [OF Suc.prems ctor]
  show ?case by simp
qed

section \<open>The claims\<close>

text \<open>
  Claim C1. After construction the dialog's tool bar holds exactly two controls: first a
  button labelled "Vectorize", then a button labelled "Zoom". This holds for every parent
  and every store the constructor starts from.
\<close>

theorem toolbar_has_vectorize_then_zoom:
  "case SchematicImportDialog parent w0 of
     (this, w) \<Rightarrow>
       toolbar_controls this w = Some [Some (Button, ''Vectorize''), Some (Button, ''Zoom'')]"
  by (cases w0) (simp add: ctor_explicit toolbar_controls_def blank_def)

text \<open>
  Claim C2. After construction the minimum size that the dialog reports is at least 800
  wide and at least 600 high.
\<close>

theorem min_size_at_least_800_600:
  "case SchematicImportDialog parent w0 of
     (this, w) \<Rightarrow>
       (case GetMinSize this w of None \<Rightarrow> False | Some sz \<Rightarrow> 800 \<le> fst sz \<and> 600 \<le> snd sz)"
  by (cases w0) (simp add: ctor_explicit GetMinSize_def blank_def)

text \<open>
  Claim C3. A click on the "Vectorize" button of a constructed dialog calls
  \<^verbatim>\<open>OnVectorize\<close> exactly once and nothing else, the event is handled, no exception is
  thrown, and the store after the click is the store before it. The handler leaves every
  event and the store as they are. So in any sequence of clicks on the two buttons
  \<^verbatim>\<open>OnVectorize\<close> runs as many times as "Vectorize" was clicked, and the store never changes.
\<close>

theorem vectorize_click_runs_handler_once:
  "case SchematicImportDialog parent w0 of
     (this, w) \<Rightarrow>
       click VectorizeButton this w = Inr ([Ptr_OnVectorize], True, w) \<and>
       (\<forall>ev. OnVectorize this ev w = Inr (ev, w)) \<and>
       (\<forall>bs. \<exists>ms. clicks bs this w = Inr (ms, w) \<and>
                  count_list ms Ptr_OnVectorize = count_list bs VectorizeButton)"
proof (cases "SchematicImportDialog parent w0")
  case (Pair this w)
  have "click VectorizeButton this w = Inr ([Ptr_OnVectorize], True, w)"
    using click_constructed [OF Pair, of VectorizeButton] by simp
  moreover have "\<forall>ev. OnVectorize this ev w = Inr (ev, w)"
    by (simp add: OnVectorize_def)
  moreover have "\<forall>bs. \<exists>ms. clicks bs this w = Inr (ms, w) \<and>
                  count_list ms Ptr_OnVectorize = count_list bs VectorizeButton"
    using clicks_constructed [OF Pair] count_vectorize by blast
  ultimately show ?thesis using Pair by simp
qed

text \<open>
  Claim C4. A click on the "Zoom" button of a constructed dialog calls \<^verbatim>\<open>OnZoom\<close> exactly
  once and nothing else, the event is handled, no exception is thrown, and the store after
  the click is the store before it. The handler leaves every event and the store as they
  are. So in any sequence of clicks on the two buttons \<^verbatim>\<open>OnZoom\<close> runs as many times as
  "Zoom" was clicked, and the store never changes.
\<close>

theorem zoom_click_runs_handler_once:
  "case SchematicImportDialog parent w0 of
     (this, w) \<Rightarrow>
       click ZoomButton this w = Inr ([Ptr_OnZoom], True, w) \<and>
       (\<forall>ev. OnZoom this ev w = Inr (ev, w)) \<and>
       (\<forall>bs. \<exists>ms. clicks bs this w = Inr (ms, w) \<and>
                  count_list ms Ptr_OnZoom = count_list bs ZoomButton)"
proof (cases "SchematicImportDialog parent w0")
  case (Pair this w)
  have "click ZoomButton this w = Inr ([Ptr_OnZoom], True, w)"
    using click_constructed [OF Pair, of ZoomButton] by simp
  moreover have "\<forall>ev. OnZoom this ev w = Inr (ev, w)"
    by (simp add: OnZoom_def)
  moreover have "\<forall>bs. \<exists>ms. clicks bs this w = Inr (ms, w) \<and>
                  count_list ms Ptr_OnZoom = count_list bs ZoomButton"
    using clicks_constructed [OF Pair] count_zoom by blast
  ultimately show ?thesis using Pair by simp
qed

text \<open>
  Claim C5, as stated, says that the constructed dialog is a modal window with that title
  and style. For the dialog constructed without a parent in the empty store the three
  properties do not hold together, because the dialog is not modal.
\<close>

theorem dialog_modal_counterexample:
  "\<not> (IsModal (fst (SchematicImportDialog None empty_world))
          (snd (SchematicImportDialog None empty_world)) = Some True \<and>
      GetTitle (fst (SchematicImportDialog None empty_world))
          (snd (SchematicImportDialog None empty_world)) = Some ''Import Schematic'' \<and>
      HasFlag (fst (SchematicImportDialog None empty_world)) wxRESIZE_BORDER
          (snd (SchematicImportDialog None empty_world)))"
  by (simp add: empty_world_def ctor_explicit IsModal_def blank_def)

text \<open>
  Claim C5, as amended. For every parent, the constructed object is a dialog titled
  "Import Schematic" whose window style includes the resize border; when the constructor
  returns it is not modal (and, by C7, not shown): the constructor never calls
  \<^verbatim>\<open>ShowModal\<close>, the call that makes a dialog modal.
\<close>

theorem dialog_titled_resizable_not_modal:
  "case SchematicImportDialog parent w0 of
     (this, w) \<Rightarrow>
       map_option cls (heap w this) = Some Dialog \<and>
       GetTitle this w = Some ''Import Schematic'' \<and>
       HasFlag this wxRESIZE_BORDER w \<and>
       IsModal this w = Some False"
  by (cases w0) (simp add: ctor_explicit GetTitle_def HasFlag_def IsModal_def blank_def style_defs)

text \<open>
  Claim C6. After construction the scrolled window of the dialog scrolls by exactly 5
  units horizontally and 5 units vertically.
\<close>

theorem scroll_rate_is_5_5:
  "case SchematicImportDialog parent w0 of
     (this, w) \<Rightarrow> viewport_scroll_rate this w = Some (5, 5)"
  by (cases w0) (simp add: ctor_explicit viewport_scroll_rate_def blank_def)

text \<open>
  Claim C7. The constructor takes one parameter, the parent (the store is the model's
  own argument). It makes the fifteen toolkit calls listed, in this order and no others:
  among them the two \<^verbatim>\<open>Bind\<close> calls and \<^verbatim>\<open>SetSizer\<close>, and none that shows a window or runs an
  event loop. When it returns, each button has its click handler bound, the sizer is
  installed, and the dialog is neither shown nor modal.
\<close>

theorem handlers_bound_and_layout_set_before_showing:
  "case SchematicImportDialog parent w0 of
     (this, w) \<Rightarrow>
       trace w = trace w0 @ calls_since w0 w \<and>
       calls_since w0 w =
         [New Dialog this, New BoxSizer (this + 1), New ScrolledWindow (this + 2),
          Call_SetScrollRate (this + 2) 5 5, Call_CreateToolBar this (this + 3),
          New Button (this + 4), New Button (this + 5),
          Call_AddControl (this + 3) (this + 4), Call_AddControl (this + 3) (this + 5),
          Call_Realize (this + 3), Call_CreateStatusBar this (this + 6),
          Call_Bind (this + 4) wxEVT_BUTTON Ptr_OnVectorize this,
          Call_Bind (this + 5) wxEVT_BUTTON Ptr_OnZoom this,
          Call_SetSizer this (this + 1), Call_SetMinSize this 800 600] \<and>
       filter shows_window (calls_since w0 w) = [] \<and>
       button_bindings VectorizeButton this w = Some [(wxEVT_BUTTON, Ptr_OnVectorize, this)] \<and>
       button_bindings ZoomButton this w = Some [(wxEVT_BUTTON, Ptr_OnZoom, this)] \<and>
       GetSizer this w = Some (this + 1) \<and>
       IsShown this w = Some False \<and>
       IsModal this w = Some False"
  by (cases w0)
     (simp add: ctor_explicit button_bindings_def GetSizer_def IsShown_def IsModal_def
        calls_since_def blank_def)

text \<open>
  Claim C8. Take any sequence of constructions and destructions, starting from the empty
  store, and construct one more dialog. Its four widgets (scrolled window, two buttons,
  status bar) are then alive. Whatever constructions and destructions follow, whenever
  one of the four is alive, so is the dialog: no widget outlives the dialog that created
  it. Destroying the dialog destroys the four, and leaves the store exactly as it was
  before the dialog was constructed, so any number of construct-and-destroy cycles leaves
  the store as it was: nothing leaks.
\<close>

theorem widgets_do_not_outlive_dialog:
  "case SchematicImportDialog parent (run_lifecycle earlier empty_world) of
     (this, w) \<Rightarrow>
       length (owned_widgets this w) = 4 \<and>
       (\<forall>m \<in> set (owned_widgets this w).
          heap w m \<noteq> None \<and>
          (\<forall>later. heap (run_lifecycle later w) m \<noteq> None \<longrightarrow>
                   heap (run_lifecycle later w) this \<noteq> None) \<and>
          heap (delete_object this w) m = None) \<and>
       heap (delete_object this w) = heap (run_lifecycle earlier empty_world) \<and>
       (\<forall>k. heap (cycles k parent (run_lifecycle earlier empty_world)) =
              heap (run_lifecycle earlier empty_world))"
proof (cases "SchematicImportDialog parent (run_lifecycle earlier empty_world)")
  case (Pair this w)
  let ?w0 = "run_lifecycle earlier empty_world"
  have wo: "well_owned ?w0" by (rule well_owned_lifecycle [OF well_owned_empty])
  then have fr: "fresh ?w0" by (simp add: well_owned_def)
  note cw = ctor_widgets [OF Pair]
  have len: "length (owned_widgets this w) = 4" by (simp add: cw(1))
  have restored: "heap (delete_object this w) = heap ?w0" by (rule delete_after_ctor [OF fr Pair])
  have each: "heap w m \<noteq> None \<and>
      (\<forall>later. heap (run_lifecycle later w) m \<noteq> None \<longrightarrow> heap (run_lifecycle later w) this \<noteq> None) \<and>
      heap (delete_object this w) m = None"
    if m: "m \<in> set (owned_widgets this w)" for m
  proof -
    from m cw(1) have range: "this \<le> m" "m < this + 7" by auto
    from m cw(1) cw(4) cw(6) cw(7) cw(8) have "heap w m \<noteq> None" by auto
    moreover have "\<forall>later. heap (run_lifecycle later w) m \<noteq> None \<longrightarrow>
        heap (run_lifecycle later w) this \<noteq> None"
      using widget_needs_dialog [OF wo Pair m] by blast
    moreover have "heap (delete_object this w) m = None"
      using ctor_owned [OF Pair range] by (simp add: delete_heap)
    ultimately show ?thesis by blast
  qed
  have cyc: "\<forall>k. heap (cycles k parent ?w0) = heap ?w0"
    using cycles_heap [OF fr] by blast
  from len each restored cyc show ?thesis unfolding Pair by simp
qed

text \<open>
  An instance: construct a dialog in the empty store (it is at address 0, its status bar
  at address 6), then construct a second dialog with the first as parent. The status bar
  of the first is one of its widgets and is still alive, so the first dialog is alive;
  destroying the first dialog instead destroys its status bar.
\<close>

theorem widgets_do_not_outlive_dialog_witness:
  "6 \<in> set (owned_widgets 0 (snd (SchematicImportDialog None empty_world))) \<and>
   heap (run_lifecycle [Construct (Some 0)] (snd (SchematicImportDialog None empty_world))) 6
     \<noteq> None \<and>
   heap (run_lifecycle [Construct (Some 0)] (snd (SchematicImportDialog None empty_world))) 0
     \<noteq> None \<and>
   heap (delete_object 0 (snd (SchematicImportDialog None empty_world))) 6 = None"
proof -
  obtain w where ctor: "SchematicImportDialog None empty_world = (0, w)"
    by (simp add: empty_world_def ctor_explicit)
  have mem: "6 \<in> set (owned_widgets 0 (snd (SchematicImportDialog None empty_world)))"
    by (simp add: empty_world_def ctor_explicit owned_widgets_def blank_def)
  have live:
    "heap (run_lifecycle [Construct (Some 0)] (snd (SchematicImportDialog None empty_world))) 6
       \<noteq> None"
    by (simp add: ctor_old ctor_next) (simp add: empty_world_def ctor_explicit)
  from widgets_do_not_outlive_dialog [where parent = None and earlier = "[]"]
  have "\<forall>m \<in> set (owned_widgets 0 w).
          (\<forall>later. heap (run_lifecycle later w) m \<noteq> None \<longrightarrow>
                   heap (run_lifecycle later w) 0 \<noteq> None) \<and>
          heap (delete_object 0 w) m = None"
    by (simp add: ctor) (simp add: empty_world_def)
  with mem live show ?thesis unfolding ctor snd_conv by blast
qed

text \<open>
  Claim C9. After construction the sizer installed on the dialog has no items, and no
  call of the construction puts anything into a sizer; the scrolled window exists as a
  child of the dialog (its owner is the dialog) without being part of that layout.
\<close>

theorem main_sizer_is_empty:
  "case SchematicImportDialog parent w0 of
     (this, w) \<Rightarrow>
       installed_sizer_items this w = Some [] \<and>
       filter adds_to_sizer (calls_since w0 w) = [] \<and>
       (case heap w this of
          None \<Rightarrow> False
        | Some d \<Rightarrow>
            (case m_scrolledWindow d of
               None \<Rightarrow> False
             | Some sw \<Rightarrow> map_option owner (heap w sw) = Some (Some this)))"
  by (cases w0) (simp add: ctor_explicit installed_sizer_items_def calls_since_def blank_def)

text \<open>
  Claim C10. The text of the dialog's status bar is empty after construction and after
  any sequence of calls of \<^verbatim>\<open>OnVectorize\<close> and \<^verbatim>\<open>OnZoom\<close> that follows, and none of the calls
  logged since the start of the construction writes into a status bar.
\<close>

theorem status_bar_text_stays_empty:
  "case SchematicImportDialog parent w0 of
     (this, w) \<Rightarrow>
       status_text this w = Some [] \<and>
       (\<forall>hs. case run_handlers hs this w of
                Inl e \<Rightarrow> False
              | Inr w' \<Rightarrow>
                  status_text this w' = Some [] \<and>
                  filter writes_status (calls_since w0 w') = [])"
  by (cases w0)
     (simp add: run_handlers_id ctor_explicit status_text_def GetStatusText_def
        calls_since_def blank_def)

end
